theory Spec2Isabelle
  imports Main "HOL-Library.Sublist"
begin

section \<open>Python values as the script sees them\<close>

text \<open>
  The script \<^verbatim>\<open>vision_parse.py\<close> handles values that come out of \<^verbatim>\<open>json.load\<close>,
  \<^verbatim>\<open>json.loads\<close> and \<^verbatim>\<open>response.json()\<close>: \<^verbatim>\<open>None\<close>, booleans, unbounded integers,
  floats, strings, lists and dictionaries with string keys. A Python \<^verbatim>\<open>str\<close> is a sequence
  of code points, so it is a list of naturals here; \<open>str\<close> turns an ASCII literal into one.
  A float only ever has its truth value tested, so it is kept as sign, mantissa and
  exponent (or an infinity, or NaN) without arithmetic. A dictionary is an association
  list in insertion order.
\<close>

type_synonym pystr = "nat list"

definition str :: "string \<Rightarrow> pystr" where
  "str s = map of_char s"

datatype pyfloat = Finite bool nat int | Infinite bool | NaN

datatype pyval =
    PyNone
  | PyBool bool
  | PyInt int
  | PyFloat pyfloat
  | PyStr pystr
  | PyList "pyval list"
  | PyDict "(pystr \<times> pyval) list"

type_synonym pydict = "(pystr \<times> pyval) list"

text \<open>
  Exceptions. \<open>LibraryError\<close> stands for any other subclass of \<^verbatim>\<open>Exception\<close> that a
  library call raises (\<^verbatim>\<open>requests.ConnectionError\<close>, \<^verbatim>\<open>requests.HTTPError\<close>, \<^verbatim>\<open>OSError\<close>,
  a PyMuPDF error, ...). \<^verbatim>\<open>KeyboardInterrupt\<close> and \<^verbatim>\<open>SystemExit\<close> derive from
  \<^verbatim>\<open>BaseException\<close> only, so \<^verbatim>\<open>except Exception\<close> lets them through.
\<close>

datatype exn =
    KeyError
  | IndexError
  | TypeError
  | AttributeError
  | ValueError
  | JSONDecodeError
  | LibraryError string
  | KeyboardInterrupt
  | SystemExit

fun is_Exception :: "exn \<Rightarrow> bool" where
  "is_Exception KeyboardInterrupt = False"
| "is_Exception SystemExit = False"
| "is_Exception _ = True"

text \<open>Truth value testing (\<^verbatim>\<open>if questions:\<close>, \<^verbatim>\<open>not result['choices']\<close>).\<close>

fun truthy :: "pyval \<Rightarrow> bool" where
  "truthy PyNone = False"
| "truthy (PyBool b) = b"
| "truthy (PyInt n) = (n \<noteq> 0)"
| "truthy (PyFloat (Finite s m e)) = (m \<noteq> 0)"
| "truthy (PyFloat _) = True"
| "truthy (PyStr s) = (s \<noteq> [])"
| "truthy (PyList xs) = (xs \<noteq> [])"
| "truthy (PyDict kvs) = (kvs \<noteq> [])"

text \<open>\<^verbatim>\<open>len(x)\<close>: defined on strings, lists and dictionaries, a \<^verbatim>\<open>TypeError\<close> elsewhere.\<close>

fun py_len :: "pyval \<Rightarrow> exn + nat" where
  "py_len (PyStr s) = Inr (length s)"
| "py_len (PyList xs) = Inr (length xs)"
| "py_len (PyDict kvs) = Inr (length kvs)"
| "py_len _ = Inl TypeError"

text \<open>
  Iteration, as \<^verbatim>\<open>list.extend\<close> performs it on its argument: a list yields its elements,
  a string its characters as one-character strings, a dictionary its keys.
\<close>

fun py_iter :: "pyval \<Rightarrow> exn + pyval list" where
  "py_iter (PyList xs) = Inr xs"
| "py_iter (PyStr s) = Inr (map (\<lambda>c. PyStr [c]) s)"
| "py_iter (PyDict kvs) = Inr (map (\<lambda>kv. PyStr (fst kv)) kvs)"
| "py_iter _ = Inl TypeError"

text \<open>\<^verbatim>\<open>s.find(sep)\<close>: the index of the leftmost occurrence of \<open>sep\<close> in \<open>s\<close>.\<close>

fun find_sep :: "pystr \<Rightarrow> pystr \<Rightarrow> nat option" where
  "find_sep sep [] = (if sep = [] then Some 0 else None)"
| "find_sep sep (c # cs) =
     (if prefix sep (c # cs) then Some 0 else map_option Suc (find_sep sep cs))"

text \<open>
  \<^verbatim>\<open>key in x\<close> for a string \<open>key\<close>: substring test on a string, element test on a list,
  key test on a dictionary, and a \<^verbatim>\<open>TypeError\<close> on a value that is not iterable.
\<close>

fun py_contains :: "pystr \<Rightarrow> pyval \<Rightarrow> exn + bool" where
  "py_contains key (PyStr s) = Inr (find_sep key s \<noteq> None)"
| "py_contains key (PyList xs) = Inr (PyStr key \<in> set xs)"
| "py_contains key (PyDict kvs) = Inr (key \<in> fst ` set kvs)"
| "py_contains key _ = Inl TypeError"

text \<open>\<^verbatim>\<open>x[key]\<close> for a string \<open>key\<close>, and \<^verbatim>\<open>x[0]\<close>.\<close>

fun py_getitem_key :: "pyval \<Rightarrow> pystr \<Rightarrow> exn + pyval" where
  "py_getitem_key (PyDict kvs) key =
     (case map_of kvs key of None \<Rightarrow> Inl KeyError | Some v \<Rightarrow> Inr v)"
| "py_getitem_key _ key = Inl TypeError"

fun py_getitem_0 :: "pyval \<Rightarrow> exn + pyval" where
  "py_getitem_0 (PyList xs) = (case xs of [] \<Rightarrow> Inl IndexError | x # _ \<Rightarrow> Inr x)"
| "py_getitem_0 (PyStr s) = (case s of [] \<Rightarrow> Inl IndexError | c # _ \<Rightarrow> Inr (PyStr [c]))"
| "py_getitem_0 (PyDict kvs) = Inl KeyError"
| "py_getitem_0 _ = Inl TypeError"

text \<open>\<^verbatim>\<open>d[key] = v\<close>: an existing key keeps its place, a new one goes last.\<close>

fun dict_set :: "pystr \<Rightarrow> pyval \<Rightarrow> pydict \<Rightarrow> pydict" where
  "dict_set k v [] = [(k, v)]"
| "dict_set k v ((k', v') # kvs) =
     (if k = k' then (k, v) # kvs else (k', v') # dict_set k v kvs)"

text \<open>
  \<^verbatim>\<open>s.split(sep)\<close>: cut at the occurrences of \<open>sep\<close>, found from the left without
  overlap. Python raises \<^verbatim>\<open>ValueError\<close> on an empty separator; the script only splits
  at its two fence literals, and the empty separator is given the uncut string here.
\<close>

function py_split :: "pystr \<Rightarrow> pystr \<Rightarrow> pystr list" where
  "py_split sep s =
     (if sep = [] then [s]
      else case find_sep sep s of
             None \<Rightarrow> [s]
           | Some k \<Rightarrow> take k s # py_split sep (drop (k + length sep) s))"
  by pat_completeness auto
termination
proof (relation "measure (\<lambda>(sep, s). length s)")
  show "wf (measure (\<lambda>(sep, s). length s))"
    by simp
next
  fix sep s :: pystr and k :: nat
  assume nonempty: "sep \<noteq> []" and found: "find_sep sep s = Some k"
  from nonempty found have "s \<noteq> []"
    by (cases s) auto
  with nonempty show "((sep, drop (k + length sep) s), (sep, s)) \<in> measure (\<lambda>(sep, s). length s)"
    by simp
qed

text \<open>\<^verbatim>\<open>xs[i]\<close> on a list, with the \<^verbatim>\<open>IndexError\<close> of an index out of range.\<close>

definition list_index :: "'a list \<Rightarrow> nat \<Rightarrow> exn + 'a" where
  "list_index xs i = (if i < length xs then Inr (xs ! i) else Inl IndexError)"

text \<open>
  \<^verbatim>\<open>s.strip()\<close>: drops leading and trailing whitespace, which for a \<^verbatim>\<open>str\<close> is the set
  of code points on which \<^verbatim>\<open>str.isspace\<close> holds.
\<close>

definition is_space :: "nat \<Rightarrow> bool" where
  "is_space c \<longleftrightarrow>
     (9 \<le> c \<and> c \<le> 13) \<or> (28 \<le> c \<and> c \<le> 32) \<or> c = 133 \<or> c = 160 \<or> c = 5760 \<or>
     (8192 \<le> c \<and> c \<le> 8202) \<or> c = 8232 \<or> c = 8233 \<or> c = 8239 \<or> c = 8287 \<or> c = 12288"

definition py_strip :: "pystr \<Rightarrow> pystr" where
  "py_strip s = rev (dropWhile is_space (rev (dropWhile is_space s)))"

section \<open>The outside world\<close>

text \<open>
  A file holds a JSON document (what \<^verbatim>\<open>json.dump\<close> wrote, which \<^verbatim>\<open>json.load\<close> reads back
  as the same value), or is one on which opening or \<^verbatim>\<open>json.load\<close> raises. An empty file
  is of the second kind, with \<^verbatim>\<open>JSONDecodeError\<close>.
\<close>

datatype disk_file = JsonDoc pyval | Unloadable exn

text \<open>
  The lines the script prints, one constructor per \<^verbatim>\<open>print\<close> of the source, holding the
  values its f-string formats. \<open>ResumingFromPage v\<close> is the line
  \<^verbatim>\<open>Resuming from page {data['last_page'] + 1}\<close> for \<^verbatim>\<open>data['last_page']\<close> equal to \<open>v\<close>.
\<close>

datatype log_line =
    ErrorCallingVisionModel exn
  | ResumingFromPage pyval
  | LegacyCheckpointFound
  | ErrorLoadingCheckpoint exn
  | ProcessingPage int nat
  | FoundQuestions nat
  | NoQuestionsFound int
  | Finished nat

text \<open>
  What the script changes: the files it writes, its standard output, the images it has
  sent to the model so far (one entry per \<^verbatim>\<open>requests.post\<close>), and the seconds it has slept.
  Writing a file replaces its contents and always succeeds here: an error of the
  operating system while writing is outside the model. So is the limit on the digits of
  an integer wherever the script writes a page number or a count; it is modelled for the
  one number that is computed from a value read out of a file, on line 95.
\<close>

record world =
  files :: "pystr \<rightharpoonup> disk_file"
  stdout :: "log_line list"
  posted :: "pystr list"
  slept :: nat

text \<open>
  The HTTP response object, by the two methods the script calls on it:
  \<^verbatim>\<open>raise_for_status()\<close> raises or not, \<^verbatim>\<open>json()\<close> raises or gives the decoded envelope.
\<close>

record response =
  raise_for_status :: "exn option"
  json :: "exn + pyval"

text \<open>
  The libraries, as parameters: PyMuPDF (\<^verbatim>\<open>fitz.open\<close>, \<^verbatim>\<open>len(doc)\<close>, \<^verbatim>\<open>doc[i]\<close>,
  \<^verbatim>\<open>page.get_pixmap\<close>, \<^verbatim>\<open>pix.tobytes\<close>), \<^verbatim>\<open>base64.b64encode\<close> followed by the decoding of
  its ASCII output, \<^verbatim>\<open>requests.post\<close> and \<^verbatim>\<open>json.loads\<close>. The outcome of a request may
  depend on the image sent and on how many requests were made before it.
\<close>

record ('doc, 'page, 'pix) env =
  fitz_open :: "pystr \<Rightarrow> exn + 'doc"
  len_doc :: "'doc \<Rightarrow> nat"
  getitem_doc :: "'doc \<Rightarrow> int \<Rightarrow> exn + 'page"
  get_pixmap :: "'page \<Rightarrow> exn + 'pix"
  tobytes :: "'pix \<Rightarrow> exn + nat list"
  b64encode :: "nat list \<Rightarrow> pystr"
  post :: "nat \<Rightarrow> pystr \<Rightarrow> exn + response"
  json_loads :: "pystr \<Rightarrow> exn + pyval"

definition print :: "log_line \<Rightarrow> world \<Rightarrow> world" where
  "print l w = w\<lparr>stdout := stdout w @ [l]\<rparr>"

section \<open>Page Rasterizer: \<^verbatim>\<open>pdf_page_to_base64\<close>\<close>

definition pdf_page_to_base64 :: "('doc, 'page, 'pix) env \<Rightarrow> 'page \<Rightarrow> exn + pystr" where
  "pdf_page_to_base64 env page =
     (case get_pixmap env page of
        Inl e \<Rightarrow> Inl e
      | Inr pix \<Rightarrow>
          (case tobytes env pix of
             Inl e \<Rightarrow> Inl e
           | Inr img_data \<Rightarrow> Inr (b64encode env img_data)))"

section \<open>Model Client: \<^verbatim>\<open>call_vision_model\<close>\<close>

definition fence_json :: pystr where
  "fence_json = str ''```json''"

definition fence :: pystr where
  "fence = str ''```''"

text \<open>\<^verbatim>\<open>result['choices'][0]['message']['content']\<close> (line 65).\<close>

definition first_choice_content :: "pyval \<Rightarrow> exn + pyval" where
  "first_choice_content result =
     (case py_getitem_key result (str ''choices'') of
        Inl e \<Rightarrow> Inl e
      | Inr choices \<Rightarrow>
          (case py_getitem_0 choices of
             Inl e \<Rightarrow> Inl e
           | Inr choice \<Rightarrow>
               (case py_getitem_key choice (str ''message'') of
                  Inl e \<Rightarrow> Inl e
                | Inr message \<Rightarrow> py_getitem_key message (str ''content''))))"

text \<open>
  \<^verbatim>\<open>content.split(opening)[1].split("```")[0].strip()\<close> (lines 69 and 71). Only a \<^verbatim>\<open>str\<close>
  has a \<^verbatim>\<open>split\<close> method.
\<close>

definition cut_fence :: "pystr \<Rightarrow> pyval \<Rightarrow> exn + pyval" where
  "cut_fence opening content =
     (case content of
        PyStr s \<Rightarrow>
          (case list_index (py_split opening s) 1 of
             Inl e \<Rightarrow> Inl e
           | Inr inner \<Rightarrow>
               (case list_index (py_split fence inner) 0 of
                  Inl e \<Rightarrow> Inl e
                | Inr body \<Rightarrow> Inr (PyStr (py_strip body))))
      | _ \<Rightarrow> Inl AttributeError)"

text \<open>Lines 67 to 71: the cleaning of the content.\<close>

definition clean_content :: "pyval \<Rightarrow> exn + pyval" where
  "clean_content content =
     (case py_contains fence_json content of
        Inl e \<Rightarrow> Inl e
      | Inr labeled \<Rightarrow>
          if labeled then cut_fence fence_json content
          else (case py_contains fence content of
                  Inl e \<Rightarrow> Inl e
                | Inr unlabeled \<Rightarrow>
                    if unlabeled then cut_fence fence content else Inr content))"

text \<open>
  Lines 73 to 76: \<^verbatim>\<open>json.loads(content)\<close>, which takes a \<^verbatim>\<open>str\<close> only, inside the inner
  \<^verbatim>\<open>try\<close> that turns a \<^verbatim>\<open>JSONDecodeError\<close> into the empty list.
\<close>

definition parse_content :: "('doc, 'page, 'pix) env \<Rightarrow> pyval \<Rightarrow> exn + pyval" where
  "parse_content env content =
     (case (case content of PyStr s \<Rightarrow> json_loads env s | _ \<Rightarrow> Inl TypeError) of
        Inl e \<Rightarrow> if e = JSONDecodeError then Inr (PyList []) else Inl e
      | Inr v \<Rightarrow> Inr v)"

text \<open>
  The body of the outer \<^verbatim>\<open>try\<close> (lines 58 to 76), for the request number \<open>n\<close> and the
  image sent: a value returned, or the exception that leaves the block.
\<close>

definition vision_try_body :: "('doc, 'page, 'pix) env \<Rightarrow> nat \<Rightarrow> pystr \<Rightarrow> exn + pyval" where
  "vision_try_body env n base64_image =
     (case post env n base64_image of
        Inl e \<Rightarrow> Inl e
      | Inr response \<Rightarrow>
          (case raise_for_status response of
             Some e \<Rightarrow> Inl e
           | None \<Rightarrow>
               (case json response of
                  Inl e \<Rightarrow> Inl e
                | Inr result \<Rightarrow>
                    (case py_contains (str ''choices'') result of
                       Inl e \<Rightarrow> Inl e
                     | Inr has_choices \<Rightarrow>
                         if \<not> has_choices then Inr (PyList [])
                         else (case py_getitem_key result (str ''choices'') of
                                 Inl e \<Rightarrow> Inl e
                               | Inr choices \<Rightarrow>
                                   if \<not> truthy choices then Inr (PyList [])
                                   else (case first_choice_content result of
                                           Inl e \<Rightarrow> Inl e
                                         | Inr content \<Rightarrow>
                                             (case clean_content content of
                                                Inl e \<Rightarrow> Inl e
                                              | Inr cleaned \<Rightarrow> parse_content env cleaned)))))))"

text \<open>
  The outer \<^verbatim>\<open>except Exception\<close> (lines 77 to 79) prints the error and returns the empty
  list; an exception that is not an \<^verbatim>\<open>Exception\<close> leaves the function. \<open>vision_outcome\<close>
  is what the request number \<open>n\<close> makes the function print and return (or raise).
\<close>

definition vision_outcome ::
  "('doc, 'page, 'pix) env \<Rightarrow> nat \<Rightarrow> pystr \<Rightarrow> log_line list \<times> (exn + pyval)" where
  "vision_outcome env n base64_image =
     (case vision_try_body env n base64_image of
        Inr v \<Rightarrow> ([], Inr v)
      | Inl e \<Rightarrow>
          if is_Exception e then ([ErrorCallingVisionModel e], Inr (PyList []))
          else ([], Inl e))"

definition call_vision_model ::
  "('doc, 'page, 'pix) env \<Rightarrow> pystr \<Rightarrow> world \<Rightarrow> world \<times> (exn + pyval)" where
  "call_vision_model env base64_image w =
     (case vision_outcome env (length (posted w)) base64_image of
        (out, r) \<Rightarrow>
          (w\<lparr>posted := posted w @ [base64_image], stdout := stdout w @ out\<rparr>, r))"

section \<open>Checkpointed Extraction Loop: \<^verbatim>\<open>process_pdf\<close>\<close>

definition key_last_page :: pystr where
  "key_last_page = str ''last_page''"

definition key_questions :: pystr where
  "key_questions = str ''questions''"

text \<open>Line 86: the state a run starts from when nothing is loaded.\<close>

definition fresh_data :: "int \<Rightarrow> pydict" where
  "fresh_data start_page =
     [(key_last_page, PyInt (start_page - 1)), (key_questions, PyList [])]"

text \<open>
  The interpreter refuses to write an integer of more than \<^verbatim>\<open>sys.get_int_max_str_digits()\<close>
  decimal digits, sign apart, and raises \<^verbatim>\<open>ValueError\<close>; the script leaves the limit at
  its default. An integer \<open>n\<close> has more than that many digits when \<open>10 ^ 4300 \<le> \<bar>n\<bar>\<close>.
\<close>

definition int_max_str_digits :: nat where
  "int_max_str_digits = 4300"

definition format_int_raises :: "int \<Rightarrow> exn option" where
  "format_int_raises n = (if 10 ^ int_max_str_digits \<le> \<bar>n\<bar> then Some ValueError else None)"

text \<open>
  What evaluating the f-string of line 95, \<^verbatim>\<open>{data['last_page'] + 1}\<close>, raises. The sum is
  defined on integers, booleans and floats, and is a \<^verbatim>\<open>TypeError\<close> on every other value
  of a JSON document; the sum of an integer is then written in decimal, within the limit
  on its digits. A checkpoint file can hold an integer of exactly 4300 digits, whose
  successor has one more.
\<close>

fun resuming_line_raises :: "pyval \<Rightarrow> exn option" where
  "resuming_line_raises (PyInt n) = format_int_raises (n + 1)"
| "resuming_line_raises (PyBool b) = None"
| "resuming_line_raises (PyFloat f) = None"
| "resuming_line_raises _ = Some TypeError"

text \<open>
  The body of the \<^verbatim>\<open>try\<close> of lines 90 to 100 on the checkpoint file found: the lines
  printed, the value of \<^verbatim>\<open>data\<close> when the block is left, and the exception that left it,
  if any. The assignment \<^verbatim>\<open>data = loaded_data\<close> of line 94 stands before the \<^verbatim>\<open>print\<close>
  that can raise, so it survives the exception.
\<close>

definition try_load :: "int \<Rightarrow> pydict \<Rightarrow> disk_file \<Rightarrow> log_line list \<times> pydict \<times> exn option" where
  "try_load start_page data f =
     (case f of
        Unloadable e \<Rightarrow> ([], data, Some e)
      | JsonDoc loaded_data \<Rightarrow>
          (case loaded_data of
             PyDict kvs \<Rightarrow>
               if key_last_page \<in> fst ` set kvs then
                 (case map_of kvs key_last_page of
                    None \<Rightarrow> ([], kvs, Some KeyError)
                  | Some v \<Rightarrow>
                      (case resuming_line_raises v of
                         Some e \<Rightarrow> ([], kvs, Some e)
                       | None \<Rightarrow> ([ResumingFromPage v], kvs, None)))
               else ([], data, None)
           | PyList xs \<Rightarrow>
               ([LegacyCheckpointFound],
                dict_set key_last_page (PyInt (start_page - 1))
                  (dict_set key_questions (PyList xs) data),
                None)
           | _ \<Rightarrow> ([], data, None)))"

text \<open>Lines 86 to 102: the state the loop starts from.\<close>

definition load_checkpoint :: "int \<Rightarrow> pystr \<Rightarrow> world \<Rightarrow> world \<times> (exn + pydict)" where
  "load_checkpoint start_page checkpoint_path w =
     (let data = fresh_data start_page in
      case files w checkpoint_path of
        None \<Rightarrow> (w, Inr data)
      | Some f \<Rightarrow>
          (case try_load start_page data f of
             (out, data', None) \<Rightarrow> (w\<lparr>stdout := stdout w @ out\<rparr>, Inr data')
           | (out, data', Some e) \<Rightarrow>
               if is_Exception e
               then (w\<lparr>stdout := stdout w @ out @ [ErrorLoadingCheckpoint e]\<rparr>, Inr data')
               else (w\<lparr>stdout := stdout w @ out\<rparr>, Inl e)))"

text \<open>
  Lines 113 to 117: \<^verbatim>\<open>len(questions)\<close> is evaluated for the line printed before
  \<^verbatim>\<open>data["questions"].extend(questions)\<close> runs; \<^verbatim>\<open>extend\<close> exists on a list only.
\<close>

definition extend_questions ::
  "pyval \<Rightarrow> int \<Rightarrow> world \<Rightarrow> pydict \<Rightarrow> world \<times> (exn + pydict)" where
  "extend_questions questions page_num w data =
     (if truthy questions then
        (case py_len questions of
           Inl e \<Rightarrow> (w, Inl e)
         | Inr n \<Rightarrow>
             (let w1 = print (FoundQuestions n) w in
              case map_of data key_questions of
                None \<Rightarrow> (w1, Inl KeyError)
              | Some (PyList qs) \<Rightarrow>
                  (case py_iter questions of
                     Inl e \<Rightarrow> (w1, Inl e)
                   | Inr xs \<Rightarrow> (w1, Inr (dict_set key_questions (PyList (qs @ xs)) data)))
              | Some _ \<Rightarrow> (w1, Inl AttributeError)))
      else (print (NoQuestionsFound page_num) w, Inr data))"

text \<open>Lines 106 to 125: the body of the loop for the page index \<open>i\<close>.\<close>

definition page_step ::
  "('doc, 'page, 'pix) env \<Rightarrow> 'doc \<Rightarrow> nat \<Rightarrow> pystr \<Rightarrow> int \<Rightarrow> world \<Rightarrow> pydict
     \<Rightarrow> world \<times> (exn + pydict)" where
  "page_step env doc total_pages checkpoint_path i w data =
     (let page_num = i + 1;
          w1 = print (ProcessingPage page_num total_pages) w
      in case getitem_doc env doc i of
           Inl e \<Rightarrow> (w1, Inl e)
         | Inr page \<Rightarrow>
             (case pdf_page_to_base64 env page of
                Inl e \<Rightarrow> (w1, Inl e)
              | Inr base64_img \<Rightarrow>
                  (case call_vision_model env base64_img w1 of
                     (w2, Inl e) \<Rightarrow> (w2, Inl e)
                   | (w2, Inr questions) \<Rightarrow>
                       (case extend_questions questions page_num w2 data of
                          (w3, Inl e) \<Rightarrow> (w3, Inl e)
                        | (w3, Inr data1) \<Rightarrow>
                            (let data2 = dict_set key_last_page (PyInt (i + 1)) data1;
                                 w4 = w3\<lparr>files := (files w3)(checkpoint_path \<mapsto> JsonDoc (PyDict data2))\<rparr>;
                                 w5 = w4\<lparr>slept := slept w4 + 1\<rparr>
                             in (w5, Inr data2))))))"

text \<open>The \<^verbatim>\<open>for\<close> loop over the page indices still to visit; an exception ends it.\<close>

fun run_pages ::
  "('doc, 'page, 'pix) env \<Rightarrow> 'doc \<Rightarrow> nat \<Rightarrow> pystr \<Rightarrow> int list \<Rightarrow> world \<Rightarrow> pydict
     \<Rightarrow> world \<times> (exn + pydict)" where
  "run_pages env doc total_pages checkpoint_path [] w data = (w, Inr data)"
| "run_pages env doc total_pages checkpoint_path (i # rest) w data =
     (case page_step env doc total_pages checkpoint_path i w data of
        (w', Inl e) \<Rightarrow> (w', Inl e)
      | (w', Inr data') \<Rightarrow> run_pages env doc total_pages checkpoint_path rest w' data')"

text \<open>
  \<^verbatim>\<open>range(x, total_pages)\<close> takes an integer \<open>x\<close> (a boolean counts as one) and raises
  \<^verbatim>\<open>TypeError\<close> on anything else.
\<close>

fun py_index :: "pyval \<Rightarrow> exn + int" where
  "py_index (PyInt n) = Inr n"
| "py_index (PyBool b) = Inr (if b then 1 else 0)"
| "py_index _ = Inl TypeError"

text \<open>Line 105: the indices \<^verbatim>\<open>range(data["last_page"], total_pages)\<close>.\<close>

definition page_range :: "pydict \<Rightarrow> nat \<Rightarrow> exn + int list" where
  "page_range data total_pages =
     (case map_of data key_last_page of
        None \<Rightarrow> Inl KeyError
      | Some v \<Rightarrow>
          (case py_index v of
             Inl e \<Rightarrow> Inl e
           | Inr last_page \<Rightarrow> Inr [last_page..int total_pages - 1]))"

definition main_loop ::
  "('doc, 'page, 'pix) env \<Rightarrow> 'doc \<Rightarrow> nat \<Rightarrow> pystr \<Rightarrow> world \<Rightarrow> pydict
     \<Rightarrow> world \<times> (exn + pydict)" where
  "main_loop env doc total_pages checkpoint_path w data =
     (case page_range data total_pages of
        Inl e \<Rightarrow> (w, Inl e)
      | Inr pages \<Rightarrow> run_pages env doc total_pages checkpoint_path pages w data)"

text \<open>
  Lines 128 to 131. \<^verbatim>\<open>open(output_path, "w")\<close> empties the file before
  \<^verbatim>\<open>data["questions"]\<close> is evaluated, so a missing key leaves an empty file behind.
\<close>

definition final_save :: "pystr \<Rightarrow> world \<Rightarrow> pydict \<Rightarrow> world \<times> (exn + unit)" where
  "final_save output_path w data =
     (case map_of data key_questions of
        None \<Rightarrow>
          (w\<lparr>files := (files w)(output_path \<mapsto> Unloadable JSONDecodeError)\<rparr>, Inl KeyError)
      | Some qs \<Rightarrow>
          (let w1 = w\<lparr>files := (files w)(output_path \<mapsto> JsonDoc qs)\<rparr> in
           case py_len qs of
             Inl e \<Rightarrow> (w1, Inl e)
           | Inr n \<Rightarrow> (print (Finished n) w1, Inr ())))"

definition checkpoint_path_of :: "pystr \<Rightarrow> pystr" where
  "checkpoint_path_of output_path = output_path @ str ''.checkpoint''"

definition process_pdf ::
  "('doc, 'page, 'pix) env \<Rightarrow> pystr \<Rightarrow> pystr \<Rightarrow> int \<Rightarrow> world \<Rightarrow> world \<times> (exn + unit)" where
  "process_pdf env pdf_path output_path start_page w =
     (case fitz_open env pdf_path of
        Inl e \<Rightarrow> (w, Inl e)
      | Inr doc \<Rightarrow>
          (let total_pages = len_doc env doc;
               checkpoint_path = checkpoint_path_of output_path
           in case load_checkpoint start_page checkpoint_path w of
                (w1, Inl e) \<Rightarrow> (w1, Inl e)
              | (w1, Inr data) \<Rightarrow>
                  (case main_loop env doc total_pages checkpoint_path w1 data of
                     (w2, Inl e) \<Rightarrow> (w2, Inl e)
                   | (w2, Inr data') \<Rightarrow> final_save output_path w2 data')))"

section \<open>Notions the properties are stated with\<close>

text \<open>
  The fence rule in the words of the specification: the text after the first labeled
  fence up to the next fence, else the text between the first two fences, else the
  content itself. \<open>after_first\<close> is the text that follows the leftmost occurrence of a
  delimiter, \<open>before_first\<close> the text that precedes it (all of the text when the delimiter
  does not occur, as for a fence that is never closed).
\<close>

fun after_first :: "pystr \<Rightarrow> pystr \<Rightarrow> pystr option" where
  "after_first sep [] = (if sep = [] then Some [] else None)"
| "after_first sep (c # cs) =
     (if prefix sep (c # cs) then Some (drop (length sep) (c # cs)) else after_first sep cs)"

fun before_first :: "pystr \<Rightarrow> pystr \<Rightarrow> pystr" where
  "before_first sep [] = []"
| "before_first sep (c # cs) = (if prefix sep (c # cs) then [] else c # before_first sep cs)"

definition fence_rule :: "pystr \<Rightarrow> pystr" where
  "fence_rule content =
     (case after_first fence_json content of
        Some rest \<Rightarrow> py_strip (before_first fence rest)
      | None \<Rightarrow>
          (case after_first fence content of
             Some rest \<Rightarrow> py_strip (before_first fence rest)
           | None \<Rightarrow> content))"

text \<open>A run of four backquotes in front of the label.\<close>

definition fence4_json :: pystr where
  "fence4_json = str ''````json''"

text \<open>
  A checkpoint document of neither accepted shape, as line 93 and line 96 test it: not a
  dictionary with the key \<^verbatim>\<open>last_page\<close>, and not a list.
\<close>

fun other_shape :: "pyval \<Rightarrow> bool" where
  "other_shape (PyDict kvs) = (key_last_page \<notin> fst ` set kvs)"
| "other_shape (PyList xs) = False"
| "other_shape _ = True"

text \<open>
  The lists the Model Client returns over a run of pages, page by page, when the first
  request of the run has the number \<open>n\<close>: defined when every page of the run is rendered
  and the client returns a list for it.
\<close>

fun returned_lists ::
  "('doc, 'page, 'pix) env \<Rightarrow> 'doc \<Rightarrow> nat \<Rightarrow> int list \<Rightarrow> pyval list list option" where
  "returned_lists env doc n [] = Some []"
| "returned_lists env doc n (i # rest) =
     (case getitem_doc env doc i of
        Inl e \<Rightarrow> None
      | Inr page \<Rightarrow>
          (case pdf_page_to_base64 env page of
             Inl e \<Rightarrow> None
           | Inr img \<Rightarrow>
               (case snd (vision_outcome env n img) of
                  Inr (PyList qs) \<Rightarrow> map_option ((#) qs) (returned_lists env doc (Suc n) rest)
                | _ \<Rightarrow> None)))"

subsection \<open>Sample runs\<close>

text \<open>
  A small world to run the script in: no file on disk; a document whose page of index
  \<open>i\<close> is rendered to the one-byte image \<open>i\<close>, but for index 3, where rendering raises;
  a model service given by its answers; a JSON parser that knows four texts.
\<close>

definition empty_world :: world where
  "empty_world = \<lparr>files = Map.empty, stdout = [], posted = [], slept = 0\<rparr>"

definition sample_loads :: "pystr \<Rightarrow> exn + pyval" where
  \<open>sample_loads s =
     (if s = str ''[]'' then Inr (PyList [])
      else if s = str ''[1]'' then Inr (PyList [PyInt 1])
      else if s = str ''{"a": 1}'' then Inr (PyDict [(str ''a'', PyInt 1)])
      else if s = str ''5'' then Inr (PyInt 5)
      else Inl JSONDecodeError)\<close>

definition sample_env ::
  "(nat \<Rightarrow> pystr \<Rightarrow> exn + response) \<Rightarrow> nat \<Rightarrow> (unit, int, int) env" where
  "sample_env service n_pages =
     \<lparr>fitz_open = (\<lambda>path. Inr ()),
      len_doc = (\<lambda>doc. n_pages),
      getitem_doc = (\<lambda>doc i. if i < int n_pages then Inr i else Inl IndexError),
      get_pixmap = (\<lambda>page. if page = 3 then Inl (LibraryError ''RuntimeError'') else Inr page),
      tobytes = (\<lambda>pix. Inr [nat pix]),
      b64encode = (\<lambda>bytes. map (\<lambda>b. 65 + b) bytes),
      post = service,
      json_loads = sample_loads\<rparr>"

definition envelope :: "pystr \<Rightarrow> pyval" where
  "envelope content =
     PyDict [(str ''choices'',
       PyList [PyDict [(str ''message'', PyDict [(str ''content'', PyStr content)])]])]"

definition answer :: "pystr \<Rightarrow> response" where
  "answer content = \<lparr>raise_for_status = None, json = Inr (envelope content)\<rparr>"

definition offline :: "nat \<Rightarrow> pystr \<Rightarrow> exn + response" where
  "offline n img = Inl (LibraryError ''ConnectionError'')"

text \<open>A service whose second request fails and whose other requests find one question.\<close>

definition sample_service :: "nat \<Rightarrow> pystr \<Rightarrow> exn + response" where
  "sample_service n img =
     (if n = 1 then Inl (LibraryError ''ConnectionError'')
      else Inr (answer (str ''```json [1] ```'')))"

text \<open>Services that answer with a JSON object, and with a JSON number.\<close>

definition object_service :: "nat \<Rightarrow> pystr \<Rightarrow> exn + response" where
  \<open>object_service n img = Inr (answer (str ''{"a": 1}''))\<close>

definition number_service :: "nat \<Rightarrow> pystr \<Rightarrow> exn + response" where
  "number_service n img = Inr (answer (str ''5''))"

text \<open>A world in which an older output file is already there.\<close>

definition stale_world :: world where
  "stale_world = empty_world\<lparr>files := [str ''q.json'' \<mapsto> JsonDoc (PyInt 0)]\<rparr>"

definition sample_path :: pystr where
  "sample_path = str ''q.json.checkpoint''"

definition with_checkpoint :: "disk_file \<Rightarrow> world" where
  "with_checkpoint f = empty_world\<lparr>files := [sample_path \<mapsto> f]\<rparr>"

section \<open>Helper lemmas\<close>

declare py_split.simps [simp del]

lemma keys_distinct: "key_last_page \<noteq> key_questions"
  by (simp add: key_last_page_def key_questions_def str_def)

lemma map_of_dict_set: "map_of (dict_set k v d) = (map_of d)(k \<mapsto> v)"
  by (induction d) (auto simp: fun_eq_iff)

lemma map_of_Some_key: "map_of kvs k = Some v \<Longrightarrow> k \<in> fst ` set kvs"
  by (metis domI dom_map_of_conv_image_fst)

text \<open>A number of one digit is within the limit; the least number of 4301 digits is not.\<close>

lemma format_int_small: "\<bar>n\<bar> < 10 \<Longrightarrow> format_int_raises n = None"
proof -
  have "(10::int) ^ 1 \<le> 10 ^ int_max_str_digits"
    unfolding int_max_str_digits_def by (rule power_increasing) simp_all
  then show "\<bar>n\<bar> < 10 \<Longrightarrow> format_int_raises n = None"
    by (simp add: format_int_raises_def)
qed

lemma format_int_large: "format_int_raises (10 ^ int_max_str_digits) = Some ValueError"
  by (simp add: format_int_raises_def)

subsection \<open>Splitting at a delimiter\<close>

lemma find_sep_None_iff: "find_sep sep s = None \<longleftrightarrow> \<not> sublist sep s"
  by (induction s) (auto simp: sublist_Cons_right)

lemma after_first_find:
  "after_first sep s = map_option (\<lambda>k. drop (k + length sep) s) (find_sep sep s)"
  by (induction s) (auto simp: option.map_comp comp_def)

lemma before_first_find:
  "sep \<noteq> [] \<Longrightarrow> before_first sep s = (case find_sep sep s of None \<Rightarrow> s | Some k \<Rightarrow> take k s)"
  by (induction s) (auto split: option.splits)

lemma py_split_hd: "sep \<noteq> [] \<Longrightarrow> \<exists>rest. py_split sep s = before_first sep s # rest"
  by (subst py_split.simps) (simp add: before_first_find split: option.splits)

lemma py_split_found:
  "sep \<noteq> [] \<Longrightarrow> find_sep sep s = Some k \<Longrightarrow>
     py_split sep s = take k s # py_split sep (drop (k + length sep) s)"
  by (subst py_split.simps) simp

lemma before_first_prefix: "prefix (before_first sep s) s"
  by (induction s) auto

lemma before_first_idem: "before_first sep (before_first sep s) = before_first sep s"
proof (induction s)
  case Nil
  show ?case by simp
next
  case (Cons c cs)
  have "prefix sep (c # before_first sep cs) \<Longrightarrow> prefix sep (c # cs)"
    using before_first_prefix [of sep cs] by (meson Cons_prefix_Cons prefix_order.trans)
  with Cons show ?case by auto
qed

lemma fence_nonempty: "fence \<noteq> []" "fence_json \<noteq> []"
  by (simp_all add: fence_def fence_json_def str_def)

text \<open>What line 69 and line 71 compute once the opening delimiter is found.\<close>

lemma cut_fence_found:
  assumes "opening \<noteq> []" and "after_first opening s = Some rest"
  shows "cut_fence opening (PyStr s) =
           Inr (PyStr (py_strip (before_first fence (before_first opening rest))))"
proof -
  from assms(2) obtain k
    where k: "find_sep opening s = Some k" and rest: "rest = drop (k + length opening) s"
    by (auto simp: after_first_find)
  obtain tl1 where tl1: "py_split opening rest = before_first opening rest # tl1"
    using py_split_hd [OF assms(1)] by blast
  obtain tl2 where tl2: "py_split fence (before_first opening rest)
      = before_first fence (before_first opening rest) # tl2"
    using py_split_hd [OF fence_nonempty(1)] by blast
  show ?thesis
    by (simp add: cut_fence_def py_split_found [OF assms(1) k] rest [symmetric] tl1 tl2
        list_index_def)
qed

text \<open>
  Cutting at the next labeled fence first loses nothing of the text in front of the
  next fence, unless that fence is a run of backquotes that goes on into a label.
\<close>

lemma before_fence_json:
  "\<not> sublist fence4_json s \<Longrightarrow>
     before_first fence (before_first fence_json s) = before_first fence s"
proof (induction s)
  case Nil
  show ?case by simp
next
  case (Cons c cs)
  from Cons.prems have no: "\<not> prefix fence4_json (c # cs)" and nocs: "\<not> sublist fence4_json cs"
    by (auto simp: sublist_Cons_right)
  have ih: "before_first fence (before_first fence_json cs) = before_first fence cs"
    using Cons.IH nocs by simp
  show ?case
  proof (cases "prefix fence_json (c # cs)")
    case True
    then have "prefix fence (c # cs)"
      by (auto simp: fence_def fence_json_def str_def prefix_def)
    with True show ?thesis by simp
  next
    case False
    have "prefix fence (c # before_first fence_json cs) \<longleftrightarrow> prefix fence (c # cs)"
    proof
      assume "prefix fence (c # before_first fence_json cs)"
      then show "prefix fence (c # cs)"
        using before_first_prefix [of fence_json cs]
        by (meson Cons_prefix_Cons prefix_order.trans)
    next
      assume "prefix fence (c # cs)"
      then obtain r where cs: "c = 96" "cs = 96 # 96 # r"
        by (auto simp: fence_def str_def prefix_def)
      from nocs have nor: "\<not> prefix fence4_json cs"
        by (metis prefix_imp_sublist)
      show "prefix fence (c # before_first fence_json cs)"
        using no nor cs
        by (auto simp: fence_def fence_json_def fence4_json_def str_def)
    qed
    with False ih show ?thesis by simp
  qed
qed

subsection \<open>The Model Client\<close>

lemma first_choice_reached:
  assumes "first_choice_content result = Inr content"
  shows "py_contains (str ''choices'') result = Inr True
         \<and> (\<exists>choices. py_getitem_key result (str ''choices'') = Inr choices \<and> truthy choices)"
proof (cases result)
  case (PyDict kvs)
  with assms obtain ch where ch: "map_of kvs (str ''choices'') = Some ch"
    by (auto simp: first_choice_content_def split: option.splits)
  then have "str ''choices'' \<in> fst ` set kvs"
    by (rule map_of_Some_key)
  moreover from assms PyDict ch have "truthy ch"
    by (cases ch) (auto simp: first_choice_content_def split: list.splits)
  ultimately show ?thesis using PyDict ch by simp
qed (use assms in \<open>auto simp: first_choice_content_def\<close>)

lemma vision_try_body_content:
  assumes "post env n img = Inr r" "raise_for_status r = None" "json r = Inr result"
    and "first_choice_content result = Inr content"
  shows "vision_try_body env n img =
           (case clean_content content of
              Inl e \<Rightarrow> Inl e
            | Inr cleaned \<Rightarrow> parse_content env cleaned)"
  using assms first_choice_reached [OF assms(4)]
  by (auto simp: vision_try_body_def)

lemma call_vision_model_returns:
  "snd (call_vision_model env img w) = snd (vision_outcome env (length (posted w)) img)"
  by (simp add: call_vision_model_def split: prod.splits)

lemma first_choice_envelope: "first_choice_content (envelope c) = Inr (PyStr c)"
  by (simp add: first_choice_content_def envelope_def str_def)

section \<open>Loading the checkpoint\<close>

text \<open>
  C1, as the code has it. A checkpoint file whose JSON document is neither a
  dictionary with the key \<^verbatim>\<open>last_page\<close> nor a list makes the loop start fresh, with
  \<^verbatim>\<open>last_page = start_page - 1\<close> and no questions, and prints nothing; a file that cannot
  be opened or parsed makes it start fresh too, and that case alone prints the line
  \<^verbatim>\<open>Error loading checkpoint\<close>.
\<close>

theorem unrecognised_checkpoint_starts_fresh:
  "(files w cp = Some (JsonDoc v) \<and> other_shape v \<longrightarrow>
      load_checkpoint start_page cp w = (w, Inr (fresh_data start_page)))
   \<and> (files w cp = Some (Unloadable e) \<and> is_Exception e \<longrightarrow>
      load_checkpoint start_page cp w =
        (print (ErrorLoadingCheckpoint e) w, Inr (fresh_data start_page)))"
  by (cases v) (auto simp: load_checkpoint_def try_load_def print_def)

theorem unrecognised_checkpoint_starts_fresh_witness:
  "load_checkpoint 19 sample_path (with_checkpoint (JsonDoc (PyDict [(key_questions, PyList [])])))
     = (with_checkpoint (JsonDoc (PyDict [(key_questions, PyList [])])),
        Inr [(key_last_page, PyInt 18), (key_questions, PyList [])])
   \<and> load_checkpoint 19 sample_path (with_checkpoint (Unloadable JSONDecodeError))
     = (print (ErrorLoadingCheckpoint JSONDecodeError) (with_checkpoint (Unloadable JSONDecodeError)),
        Inr [(key_last_page, PyInt 18), (key_questions, PyList [])])"
proof -
  have shape: "other_shape (PyDict [(key_questions, PyList [])])"
    using keys_distinct by simp
  have f1: "files (with_checkpoint (JsonDoc (PyDict [(key_questions, PyList [])]))) sample_path
      = Some (JsonDoc (PyDict [(key_questions, PyList [])]))"
    by (simp add: with_checkpoint_def empty_world_def)
  have f2: "files (with_checkpoint (Unloadable JSONDecodeError)) sample_path
      = Some (Unloadable JSONDecodeError)"
    by (simp add: with_checkpoint_def empty_world_def)
  show ?thesis
    using shape f1 f2
      unrecognised_checkpoint_starts_fresh [of
        "with_checkpoint (JsonDoc (PyDict [(key_questions, PyList [])]))" sample_path
        "PyDict [(key_questions, PyList [])]" 19 JSONDecodeError]
      unrecognised_checkpoint_starts_fresh [of
        "with_checkpoint (Unloadable JSONDecodeError)" sample_path
        "PyDict [(key_questions, PyList [])]" 19 JSONDecodeError]
    by (simp add: fresh_data_def)
qed

text \<open>
  The claim as it is written fails twice. The checkpoint \<^verbatim>\<open>{"last_page": 5}\<close> has
  \<^verbatim>\<open>last_page\<close> and lacks \<^verbatim>\<open>questions\<close>: line 93 accepts it, so the loop holds
  \<^verbatim>\<open>last_page = 5\<close> and no \<^verbatim>\<open>questions\<close> entry instead of the fresh state for
  \<^verbatim>\<open>start_page = 19\<close>. The checkpoint \<^verbatim>\<open>{}\<close> does make the loop start fresh, but nothing
  is printed for it.
\<close>

theorem checkpoint_without_questions_counterexample:
  "snd (load_checkpoint 19 sample_path (with_checkpoint (JsonDoc (PyDict [(key_last_page, PyInt 5)]))))
     = Inr [(key_last_page, PyInt 5)]
   \<and> fresh_data 19 \<noteq> [(key_last_page, PyInt 5)]
   \<and> stdout (fst (load_checkpoint 19 sample_path (with_checkpoint (JsonDoc (PyDict []))))) = []"
  by (simp add: load_checkpoint_def try_load_def with_checkpoint_def empty_world_def
      fresh_data_def format_int_small)

text \<open>
  What becomes of the adopted state without \<^verbatim>\<open>questions\<close>: on a document of three pages
  the loop has nothing left to do from \<^verbatim>\<open>last_page = 5\<close>, and the final save raises
  \<^verbatim>\<open>KeyError\<close> on \<^verbatim>\<open>data["questions"]\<close>.
\<close>

lemma adopted_state_without_questions_raises:
  "snd (process_pdf (sample_env sample_service 3) (str ''b.pdf'') (str ''q.json'') 19
      (empty_world\<lparr>files := [checkpoint_path_of (str ''q.json'')
         \<mapsto> JsonDoc (PyDict [(key_last_page, PyInt 5)])]\<rparr>)) = Inl KeyError"
  using keys_distinct
  by (simp add: process_pdf_def load_checkpoint_def try_load_def main_loop_def page_range_def
      final_save_def sample_env_def empty_world_def format_int_small)



text \<open>
  C4. A checkpoint file that holds a bare list, of any length, gives the state whose
  questions are that list, element for element, and whose \<^verbatim>\<open>last_page\<close> is
  \<^verbatim>\<open>start_page - 1\<close>; the loop then runs from the index \<^verbatim>\<open>start_page - 1\<close>.
\<close>

theorem legacy_checkpoint_recovered:
  assumes "files w cp = Some (JsonDoc (PyList xs))"
  shows "load_checkpoint start_page cp w =
           (print LegacyCheckpointFound w,
            Inr [(key_last_page, PyInt (start_page - 1)), (key_questions, PyList xs)])
         \<and> page_range [(key_last_page, PyInt (start_page - 1)), (key_questions, PyList xs)] total_pages
             = Inr [start_page - 1..int total_pages - 1]"
  using assms keys_distinct
  by (simp add: load_checkpoint_def try_load_def fresh_data_def print_def page_range_def)

theorem legacy_checkpoint_recovered_witness:
  "load_checkpoint 19 sample_path (with_checkpoint (JsonDoc (PyList [PyInt 1, PyInt 2, PyInt 3])))
     = (print LegacyCheckpointFound (with_checkpoint (JsonDoc (PyList [PyInt 1, PyInt 2, PyInt 3]))),
        Inr [(key_last_page, PyInt 18), (key_questions, PyList [PyInt 1, PyInt 2, PyInt 3])])"
proof -
  have f: "files (with_checkpoint (JsonDoc (PyList [PyInt 1, PyInt 2, PyInt 3]))) sample_path
      = Some (JsonDoc (PyList [PyInt 1, PyInt 2, PyInt 3]))"
    by (simp add: with_checkpoint_def empty_world_def)
  show ?thesis
    using legacy_checkpoint_recovered [OF f, of 19 0] by simp
qed

section \<open>The Model Client's answers\<close>

text \<open>
  C2. Whatever image is sent: when the request raises (a network error), when
  \<^verbatim>\<open>raise_for_status\<close> raises (a bad status), when decoding the envelope raises, when the
  envelope is a dictionary without \<^verbatim>\<open>choices\<close> or with an empty one, and when the content
  left after the fences are cut is not valid JSON, the Model Client raises nothing and
  returns the empty list. The exceptions of the three library calls are instances of
  \<^verbatim>\<open>Exception\<close>, as every error of \<^verbatim>\<open>requests\<close> is.
\<close>

theorem model_client_swallows_failures:
  assumes "(\<exists>e. post env (length (posted w)) img = Inl e \<and> is_Exception e)
     \<or> (\<exists>r e. post env (length (posted w)) img = Inr r \<and> raise_for_status r = Some e
            \<and> is_Exception e)
     \<or> (\<exists>r e. post env (length (posted w)) img = Inr r \<and> raise_for_status r = None
            \<and> json r = Inl e \<and> is_Exception e)
     \<or> (\<exists>r kvs. post env (length (posted w)) img = Inr r \<and> raise_for_status r = None
            \<and> json r = Inr (PyDict kvs)
            \<and> (case map_of kvs (str ''choices'') of
                  None \<Rightarrow> True
                | Some choices \<Rightarrow> \<not> truthy choices))
     \<or> (\<exists>r result content cleaned. post env (length (posted w)) img = Inr r
            \<and> raise_for_status r = None \<and> json r = Inr result
            \<and> first_choice_content result = Inr content
            \<and> clean_content content = Inr (PyStr cleaned)
            \<and> json_loads env cleaned = Inl JSONDecodeError)"
  shows "snd (call_vision_model env img w) = Inr (PyList [])"
proof -
  from assms consider
      (network) e where "post env (length (posted w)) img = Inl e" "is_Exception e"
    | (status) r e where "post env (length (posted w)) img = Inr r"
        "raise_for_status r = Some e" "is_Exception e"
    | (envelope) r e where "post env (length (posted w)) img = Inr r" "raise_for_status r = None"
        "json r = Inl e" "is_Exception e"
    | (choices) r kvs where "post env (length (posted w)) img = Inr r" "raise_for_status r = None"
        "json r = Inr (PyDict kvs)"
        "case map_of kvs (str ''choices'') of None \<Rightarrow> True | Some choices \<Rightarrow> \<not> truthy choices"
    | (content) r result content cleaned where "post env (length (posted w)) img = Inr r"
        "raise_for_status r = None" "json r = Inr result"
        "first_choice_content result = Inr content"
        "clean_content content = Inr (PyStr cleaned)" "json_loads env cleaned = Inl JSONDecodeError"
    by blast
  then have "snd (vision_outcome env (length (posted w)) img) = Inr (PyList [])"
  proof cases
    case network
    then show ?thesis by (simp add: vision_outcome_def vision_try_body_def)
  next
    case status
    then show ?thesis by (simp add: vision_outcome_def vision_try_body_def)
  next
    case envelope
    then show ?thesis by (simp add: vision_outcome_def vision_try_body_def)
  next
    case choices
    show ?thesis
    proof (cases "map_of kvs (str ''choices'')")
      case None
      then have "str ''choices'' \<notin> fst ` set kvs"
        by (simp add: map_of_eq_None_iff)
      with choices show ?thesis by (simp add: vision_outcome_def vision_try_body_def)
    next
      case (Some ch)
      then have "str ''choices'' \<in> fst ` set kvs"
        by (rule map_of_Some_key)
      with choices Some show ?thesis by (simp add: vision_outcome_def vision_try_body_def)
    qed
  next
    case content
    then show ?thesis
      by (simp add: vision_outcome_def vision_try_body_content parse_content_def)
  qed
  then show ?thesis
    by (simp add: call_vision_model_returns)
qed

theorem model_client_swallows_failures_witness:
  "snd (call_vision_model (sample_env offline 1) (str ''QQ=='') empty_world) = Inr (PyList [])
   \<and> snd (call_vision_model (sample_env (\<lambda>n img. Inr (answer (str ''no questions here''))) 1)
        (str ''QQ=='') empty_world) = Inr (PyList [])"
proof -
  have off: "post (sample_env offline 1) (length (posted empty_world)) (str ''QQ=='')
      = Inl (LibraryError ''ConnectionError'')"
    by (simp add: sample_env_def offline_def)
  have "find_sep fence_json (str ''no questions here'') = None"
    and "find_sep fence (str ''no questions here'') = None"
    by (simp_all add: fence_json_def fence_def str_def)
  then have clean: "clean_content (PyStr (str ''no questions here''))
      = Inr (PyStr (str ''no questions here''))"
    by (simp add: clean_content_def)
  have loads: "json_loads (sample_env (\<lambda>n img. Inr (answer (str ''no questions here''))) 1)
      (str ''no questions here'') = Inl JSONDecodeError"
    by (simp add: sample_env_def sample_loads_def str_def)
  have "snd (call_vision_model (sample_env offline 1) (str ''QQ=='') empty_world) = Inr (PyList [])"
    using off by (intro model_client_swallows_failures) simp
  moreover have "snd (call_vision_model
      (sample_env (\<lambda>n img. Inr (answer (str ''no questions here''))) 1)
      (str ''QQ=='') empty_world) = Inr (PyList [])"
  proof (rule model_client_swallows_failures, intro disjI2, intro exI conjI)
    show "post (sample_env (\<lambda>n img. Inr (answer (str ''no questions here''))) 1)
        (length (posted empty_world)) (str ''QQ=='') = Inr (answer (str ''no questions here''))"
      by (simp add: sample_env_def)
    show "raise_for_status (answer (str ''no questions here'')) = None"
      by (simp add: answer_def)
    show "json (answer (str ''no questions here'')) = Inr (envelope (str ''no questions here''))"
      by (simp add: answer_def)
    show "first_choice_content (envelope (str ''no questions here''))
        = Inr (PyStr (str ''no questions here''))"
      by (rule first_choice_envelope)
    show "clean_content (PyStr (str ''no questions here'')) = Inr (PyStr (str ''no questions here''))"
      by (rule clean)
    show "json_loads (sample_env (\<lambda>n img. Inr (answer (str ''no questions here''))) 1)
        (str ''no questions here'') = Inl JSONDecodeError"
      by (rule loads)
  qed
  ultimately show ?thesis by simp
qed

text \<open>
  C5, as the code has it. For every content string without a run of four backquotes in
  front of \<^verbatim>\<open>json\<close>, the text handed to the parser is the one the fence rule names, the
  labeled fence first: the text between the first labeled fence and the next fence, else
  the text between the first two fences, else the content; a fence that is never closed
  runs to the end of the content. The text is stripped of surrounding whitespace in the
  two fenced cases.
\<close>

theorem fence_rule_without_longer_run:
  assumes "find_sep fence4_json s = None"
  shows "clean_content (PyStr s) = Inr (PyStr (fence_rule s))"
proof (cases "after_first fence_json s")
  case (Some rest)
  then obtain k where rest: "rest = drop (k + length fence_json) s"
    by (auto simp: after_first_find)
  have "sublist rest s"
    unfolding rest by (rule sublist_drop)
  with assms have "\<not> sublist fence4_json rest"
    unfolding find_sep_None_iff using sublist_order.order.trans by blast
  then have "before_first fence (before_first fence_json rest) = before_first fence rest"
    by (rule before_fence_json)
  moreover from Some have "find_sep fence_json s \<noteq> None"
    by (auto simp: after_first_find)
  ultimately show ?thesis
    using Some cut_fence_found [OF fence_nonempty(2) Some]
    by (simp add: clean_content_def fence_rule_def)
next
  case None
  then have no_json: "find_sep fence_json s = None"
    by (auto simp: after_first_find)
  show ?thesis
  proof (cases "after_first fence s")
    case (Some rest)
    moreover from Some have "find_sep fence s \<noteq> None"
      by (auto simp: after_first_find)
    ultimately show ?thesis
      using None no_json cut_fence_found [OF fence_nonempty(1) Some]
      by (simp add: clean_content_def fence_rule_def before_first_idem)
  next
    case None
    then have "find_sep fence s = None"
      by (auto simp: after_first_find)
    with None \<open>after_first fence_json s = None\<close> no_json show ?thesis
      by (simp add: clean_content_def fence_rule_def)
  qed
qed

theorem fence_rule_without_longer_run_witness:
  "find_sep fence4_json (str ''x ```json [] ``` y'') = None
   \<and> clean_content (PyStr (str ''x ```json [] ``` y'')) = Inr (PyStr (str ''[]''))"
proof -
  have h: "find_sep fence4_json (str ''x ```json [] ``` y'') = None"
    by (simp add: fence4_json_def str_def)
  have "fence_rule (str ''x ```json [] ``` y'') = str ''[]''"
    by (simp add: fence_rule_def fence_def fence_json_def str_def py_strip_def is_space_def)
  with h fence_rule_without_longer_run [OF h] show ?thesis by simp
qed

text \<open>
  The claim as it is written, for every content string, fails on the content
  \<^verbatim>\<open>```json[1]````json\<close>. The text between the labeled fence and the next fence is
  \<^verbatim>\<open>[1]\<close>; line 69 first cuts at the next labeled fence, which begins one backquote
  later, and so hands \<^verbatim>\<open>[1]`\<close> to the parser.
\<close>

theorem fence_rule_counterexample:
  "clean_content (PyStr (str ''```json[1]````json'')) = Inr (PyStr (str ''[1]`''))
   \<and> fence_rule (str ''```json[1]````json'') = str ''[1]''"
  by (simp add: clean_content_def cut_fence_def fence_rule_def fence_def fence_json_def str_def
      py_split.simps list_index_def py_strip_def is_space_def)

section \<open>The page loop\<close>

subsection \<open>One page, and a run of pages\<close>

lemma call_vision_model_world:
  "call_vision_model env img w = (w', r) \<Longrightarrow>
     files w' = files w \<and> posted w' = posted w @ [img] \<and> slept w' = slept w"
  by (auto simp: call_vision_model_def split: prod.splits)

lemma extend_questions_world:
  "extend_questions v page_num w data = (w', r) \<Longrightarrow>
     files w' = files w \<and> posted w' = posted w \<and> slept w' = slept w"
  by (auto simp: extend_questions_def print_def Let_def
      split: if_splits sum.splits option.splits pyval.splits)

text \<open>
  A step that completes has written the state it returns to the checkpoint file, has
  sent one request and has advanced \<^verbatim>\<open>last_page\<close>.
\<close>

lemma page_step_completed:
  assumes "page_step env doc total_pages cp i w data = (w', Inr data')"
  shows "files w' = (files w)(cp \<mapsto> JsonDoc (PyDict data'))
         \<and> length (posted w') = Suc (length (posted w))
         \<and> map_of data' key_last_page = Some (PyInt (i + 1))
         \<and> slept w' = slept w + 1"
proof -
  from assms obtain page img w2 v w3 data1
    where "getitem_doc env doc i = Inr page" "pdf_page_to_base64 env page = Inr img"
      and call: "call_vision_model env img (print (ProcessingPage (i + 1) total_pages) w) = (w2, Inr v)"
      and ext: "extend_questions v (i + 1) w2 data = (w3, Inr data1)"
      and data': "data' = dict_set key_last_page (PyInt (i + 1)) data1"
      and w': "w' = w3\<lparr>files := (files w3)(cp \<mapsto> JsonDoc (PyDict data')), slept := slept w3 + 1\<rparr>"
    by (auto simp: page_step_def Let_def split: sum.splits prod.splits)
  from call_vision_model_world [OF call] extend_questions_world [OF ext] data' w'
  show ?thesis
    by (simp add: print_def map_of_dict_set)
qed

text \<open>
  A step that ends in an exception has written no file.
\<close>

lemma page_step_failed:
  assumes "page_step env doc total_pages cp i w data = (w', Inl e)"
  shows "files w' = files w"
proof -
  have call: "\<And>img w0 w2 r. call_vision_model env img w0 = (w2, r) \<Longrightarrow> files w2 = files w0"
    using call_vision_model_world by blast
  have ext: "\<And>v n w2 w3 r. extend_questions v n w2 data = (w3, r) \<Longrightarrow> files w3 = files w2"
    using extend_questions_world by blast
  from assms show ?thesis
    by (auto simp: page_step_def Let_def print_def split: sum.splits prod.splits
        dest!: call ext)
qed

text \<open>
  A step on a page that is rendered and for which the client returns a list.
\<close>

lemma page_step_list:
  assumes "getitem_doc env doc i = Inr page" "pdf_page_to_base64 env page = Inr img"
    and "snd (vision_outcome env (length (posted w)) img) = Inr (PyList qs)"
    and "map_of data key_questions = Some (PyList qs0)"
  shows "\<exists>w' data'. page_step env doc total_pages cp i w data = (w', Inr data')
           \<and> map_of data' key_questions = Some (PyList (qs0 @ qs))"
proof -
  obtain out where out: "vision_outcome env (length (posted w)) img = (out, Inr (PyList qs))"
    using assms(3) by (cases "vision_outcome env (length (posted w)) img") simp
  show ?thesis
    using assms(1,2,4) out keys_distinct
    by (cases "qs = []")
      (simp_all add: page_step_def call_vision_model_def extend_questions_def print_def Let_def
        map_of_dict_set)
qed

text \<open>
  A step for which the client returns a value that is true, has a length and can be
  iterated: the loop appends what iterating it yields.
\<close>

lemma page_step_extends:
  assumes "getitem_doc env doc i = Inr page" "pdf_page_to_base64 env page = Inr img"
    and "snd (vision_outcome env (length (posted w)) img) = Inr v"
    and "truthy v" "py_len v = Inr k" "py_iter v = Inr xs"
    and "map_of data key_questions = Some (PyList qs0)"
  shows "snd (page_step env doc total_pages cp i w data)
           = Inr (dict_set key_last_page (PyInt (i + 1))
                    (dict_set key_questions (PyList (qs0 @ xs)) data))"
proof -
  obtain out where "vision_outcome env (length (posted w)) img = (out, Inr v)"
    using assms(3) by (cases "vision_outcome env (length (posted w)) img") simp
  with assms show ?thesis
    by (simp add: page_step_def call_vision_model_def extend_questions_def print_def Let_def)
qed

lemma run_pages_append:
  "run_pages env doc total_pages cp (xs @ ys) w data =
     (case run_pages env doc total_pages cp xs w data of
        (w', Inl e) \<Rightarrow> (w', Inl e)
      | (w', Inr data') \<Rightarrow> run_pages env doc total_pages cp ys w' data')"
  by (induction xs arbitrary: w data) (auto split: prod.splits sum.splits)

lemma run_pages_completed:
  "run_pages env doc total_pages cp pages w data = (w', Inr data') \<Longrightarrow> pages \<noteq> [] \<Longrightarrow>
     files w' cp = Some (JsonDoc (PyDict data'))
     \<and> map_of data' key_last_page = Some (PyInt (last pages + 1))"
proof (induction pages arbitrary: w data)
  case Nil
  then show ?case by simp
next
  case (Cons i rest)
  from Cons.prems(1) obtain w1 data1
    where step: "page_step env doc total_pages cp i w data = (w1, Inr data1)"
      and run: "run_pages env doc total_pages cp rest w1 data1 = (w', Inr data')"
    by (auto split: prod.splits sum.splits)
  show ?case
  proof (cases "rest = []")
    case True
    with run page_step_completed [OF step] show ?thesis by simp
  next
    case False
    with Cons.IH [OF run] show ?thesis by simp
  qed
qed

lemma run_pages_other_files:
  "run_pages env doc total_pages cp pages w data = (w', r) \<Longrightarrow> p \<noteq> cp \<Longrightarrow>
     files w' p = files w p"
proof (induction pages arbitrary: w data)
  case Nil
  then show ?case by simp
next
  case (Cons i rest)
  obtain w1 r1 where step: "page_step env doc total_pages cp i w data = (w1, r1)"
    by (cases "page_step env doc total_pages cp i w data")
  show ?case
  proof (cases r1)
    case (Inl e)
    with step Cons.prems page_step_failed [of env doc total_pages cp i w data w1 e]
    show ?thesis by simp
  next
    case (Inr data1)
    with step Cons.prems have "run_pages env doc total_pages cp rest w1 data1 = (w', r)"
      by simp
    from Cons.IH [OF this Cons.prems(2)] page_step_completed [of env doc total_pages cp i w data w1 data1]
      step Inr Cons.prems(2)
    show ?thesis by simp
  qed
qed

lemma run_pages_lists:
  assumes "returned_lists env doc (length (posted w)) pages = Some qss"
    and "map_of data key_questions = Some (PyList qs0)"
  shows "\<exists>w' data'. run_pages env doc total_pages cp pages w data = (w', Inr data')
           \<and> map_of data' key_questions = Some (PyList (qs0 @ concat qss))
           \<and> length (posted w') = length (posted w) + length pages
           \<and> length qss = length pages"
  using assms
proof (induction pages arbitrary: w data qs0 qss)
  case Nil
  then show ?case by simp
next
  case (Cons i rest)
  from Cons.prems(1) obtain page img qs qss'
    where page: "getitem_doc env doc i = Inr page" and img: "pdf_page_to_base64 env page = Inr img"
      and ret: "snd (vision_outcome env (length (posted w)) img) = Inr (PyList qs)"
      and rest: "returned_lists env doc (Suc (length (posted w))) rest = Some qss'"
      and qss: "qss = qs # qss'"
    by (auto split: sum.splits pyval.splits)
  from page_step_list [OF page img ret Cons.prems(2)] obtain w1 data1
    where step: "page_step env doc total_pages cp i w data = (w1, Inr data1)"
      and q1: "map_of data1 key_questions = Some (PyList (qs0 @ qs))"
    by blast
  from page_step_completed [OF step] have posted1: "length (posted w1) = Suc (length (posted w))"
    by simp
  from Cons.IH [OF rest [folded posted1] q1] obtain w' data'
    where "run_pages env doc total_pages cp rest w1 data1 = (w', Inr data')"
      and "map_of data' key_questions = Some (PyList ((qs0 @ qs) @ concat qss'))"
      and "length (posted w') = length (posted w1) + length rest"
      and "length qss' = length rest"
    by blast
  with step posted1 qss show ?case by simp
qed

lemma returned_lists_nth:
  "returned_lists env doc n pages = Some qss \<Longrightarrow> j < length pages \<Longrightarrow>
   getitem_doc env doc (pages ! j) = Inr page \<Longrightarrow> pdf_page_to_base64 env page = Inr img \<Longrightarrow>
     snd (vision_outcome env (n + j) img) = Inr (PyList (qss ! j))"
proof (induction pages arbitrary: n j qss)
  case Nil
  then show ?case by simp
next
  case (Cons i rest)
  from Cons.prems(1) obtain page0 img0 qs qss'
    where page0: "getitem_doc env doc i = Inr page0" "pdf_page_to_base64 env page0 = Inr img0"
      and ret: "snd (vision_outcome env n img0) = Inr (PyList qs)"
      and rest: "returned_lists env doc (Suc n) rest = Some qss'"
      and qss: "qss = qs # qss'"
    by (auto split: sum.splits pyval.splits)
  show ?case
  proof (cases j)
    case 0
    with Cons.prems page0 ret qss show ?thesis by simp
  next
    case (Suc j')
    with Cons.prems have "j' < length rest" "getitem_doc env doc (rest ! j') = Inr page"
      by simp_all
    from Cons.IH [OF rest this Cons.prems(4)] Suc qss show ?thesis by simp
  qed
qed

lemma vision_outcome_failed:
  assumes "(\<exists>e. vision_try_body env n img = Inl e \<and> is_Exception e)
     \<or> vision_try_body env n img = Inr (PyList [])"
  shows "snd (vision_outcome env n img) = Inr (PyList [])"
  using assms by (auto simp: vision_outcome_def)

lemma checkpoint_path_differs: "checkpoint_path_of output_path \<noteq> output_path"
  by (simp add: checkpoint_path_of_def str_def)

lemma last_take_upto:
  assumes "0 < N" "N \<le> length [a..b]"
  shows "take N [a..b] \<noteq> [] \<and> last (take N [a..b]) + 1 = a + int N"
proof -
  from assms have ne: "take N [a..b] \<noteq> []"
    by auto
  from assms have len: "length (take N [a..b]) = N"
    by simp
  from assms have "a + int (N - 1) \<le> b"
    by simp
  then have "[a..b] ! (N - 1) = a + int (N - 1)"
    by (rule nth_upto)
  with assms ne len have "last (take N [a..b]) = a + int (N - 1)"
    by (simp add: last_conv_nth)
  with assms ne show ?thesis
    by simp
qed

subsection \<open>The sample runs, evaluated\<close>

lemma sample_render:
  "i < int k \<Longrightarrow> i \<noteq> 3 \<Longrightarrow>
     getitem_doc (sample_env service k) () i = Inr i
     \<and> pdf_page_to_base64 (sample_env service k) i = Inr [65 + nat i]"
  by (simp add: sample_env_def pdf_page_to_base64_def)

lemma sample_clean:
  "clean_content (PyStr (str ''```json [1] ```'')) = Inr (PyStr (str ''[1]''))"
  by (simp add: clean_content_def cut_fence_def fence_def fence_json_def str_def
      py_split.simps list_index_def py_strip_def is_space_def)

lemma sample_service_outcome:
  "vision_try_body (sample_env sample_service k) n img =
     (if n = 1 then Inl (LibraryError ''ConnectionError'') else Inr (PyList [PyInt 1]))"
proof (cases "n = 1")
  case True
  then show ?thesis
    by (simp add: vision_try_body_def sample_env_def sample_service_def)
next
  case False
  have "vision_try_body (sample_env sample_service k) n img =
      (case clean_content (PyStr (str ''```json [1] ```'')) of
         Inl e \<Rightarrow> Inl e
       | Inr cleaned \<Rightarrow> parse_content (sample_env sample_service k) cleaned)"
    using False
    by (intro vision_try_body_content [where r = "answer (str ''```json [1] ```'')"
          and result = "envelope (str ''```json [1] ```'')"])
      (simp_all add: sample_env_def sample_service_def answer_def first_choice_envelope)
  then have "vision_try_body (sample_env sample_service k) n img
      = parse_content (sample_env sample_service k) (PyStr (str ''[1]''))"
    by (simp add: sample_clean)
  with False show ?thesis
    by (simp add: parse_content_def sample_env_def sample_loads_def str_def)
qed

lemma sample_returned:
  "returned_lists (sample_env sample_service 3) () 0 [0, 1, 2] = Some [[PyInt 1], [], [PyInt 1]]"
  "returned_lists (sample_env sample_service 3) () 0 [0, 1] = Some [[PyInt 1], []]"
  "returned_lists (sample_env sample_service 5) () 0 [2] = Some [[PyInt 1]]"
  using sample_render [of 0 3 sample_service] sample_render [of 1 3 sample_service]
    sample_render [of 2 3 sample_service] sample_render [of 2 5 sample_service]
  by (simp_all add: vision_outcome_def sample_service_outcome)

lemma plain_service_outcome:
  assumes "find_sep fence c = None"
  shows "vision_try_body (sample_env (\<lambda>n img. Inr (answer c)) k) n img
           = parse_content (sample_env (\<lambda>n img. Inr (answer c)) k) (PyStr c)"
proof -
  from assms have "\<not> sublist fence c"
    by (simp add: find_sep_None_iff)
  moreover have "sublist fence fence_json"
    by (simp add: fence_def fence_json_def str_def)
  ultimately have "\<not> sublist fence_json c"
    using sublist_order.order.trans by blast
  then have "find_sep fence_json c = None"
    by (simp add: find_sep_None_iff)
  with assms have "clean_content (PyStr c) = Inr (PyStr c)"
    by (simp add: clean_content_def)
  moreover have "vision_try_body (sample_env (\<lambda>n img. Inr (answer c)) k) n img =
      (case clean_content (PyStr c) of
         Inl e \<Rightarrow> Inl e
       | Inr cleaned \<Rightarrow> parse_content (sample_env (\<lambda>n img. Inr (answer c)) k) cleaned)"
    by (intro vision_try_body_content [where r = "answer c" and result = "envelope c"])
      (simp_all add: sample_env_def answer_def first_choice_envelope)
  ultimately show ?thesis
    by simp
qed

section \<open>Progress, failures and the final output\<close>

text \<open>
  C6, as the code has it. Start from the fresh state and let the loop process its first
  \<open>N\<close> pages, for any \<open>N\<close> of at least one, each page rendered and answered by the
  Model Client with a list. The checkpoint file then holds the whole state of the loop,
  its \<^verbatim>\<open>last_page\<close> is \<^verbatim>\<open>start_page - 1 + N\<close>, and its \<^verbatim>\<open>questions\<close> are the returned lists
  one after the other, as many as the lists have elements in sum. The loop goes on from
  that state with the pages that remain.
\<close>

theorem checkpoint_after_pages:
  assumes "page_range (fresh_data start_page) total_pages = Inr pages"
    and "0 < N" and "N \<le> length pages"
    and "returned_lists env doc (length (posted w)) (take N pages) = Some qss"
  shows "\<exists>w' data'.
           run_pages env doc total_pages cp (take N pages) w (fresh_data start_page) = (w', Inr data')
           \<and> main_loop env doc total_pages cp w (fresh_data start_page)
               = run_pages env doc total_pages cp (drop N pages) w' data'
           \<and> files w' cp = Some (JsonDoc (PyDict data'))
           \<and> py_getitem_key (PyDict data') key_last_page = Inr (PyInt (start_page - 1 + int N))
           \<and> py_getitem_key (PyDict data') key_questions = Inr (PyList (concat qss))
           \<and> length (concat qss) = sum_list (map length qss)
           \<and> length qss = N"
proof -
  from assms(1) have pages: "pages = [start_page - 1..int total_pages - 1]"
    by (simp add: page_range_def fresh_data_def)
  have q0: "map_of (fresh_data start_page) key_questions = Some (PyList [])"
    using keys_distinct by (simp add: fresh_data_def)
  from run_pages_lists [OF assms(4) q0] obtain w' data'
    where run: "run_pages env doc total_pages cp (take N pages) w (fresh_data start_page)
        = (w', Inr data')"
      and qs: "map_of data' key_questions = Some (PyList ([] @ concat qss))"
      and len: "length qss = length (take N pages)"
    by blast
  from last_take_upto [OF assms(2)] assms(3) pages
  have ne: "take N pages \<noteq> []" and last: "last (take N pages) + 1 = start_page - 1 + int N"
    by simp_all
  from run_pages_completed [OF run ne] last
  have ckpt: "files w' cp = Some (JsonDoc (PyDict data'))"
    and lp: "map_of data' key_last_page = Some (PyInt (start_page - 1 + int N))"
    by simp_all
  have "main_loop env doc total_pages cp w (fresh_data start_page)
      = run_pages env doc total_pages cp (take N pages @ drop N pages) w (fresh_data start_page)"
    using assms(1) by (simp add: main_loop_def)
  also have "\<dots> = run_pages env doc total_pages cp (drop N pages) w' data'"
    unfolding run_pages_append using run by simp
  finally have loop: "main_loop env doc total_pages cp w (fresh_data start_page)
      = run_pages env doc total_pages cp (drop N pages) w' data'" .
  from run loop ckpt lp qs len assms(3) show ?thesis
    by (simp add: length_concat)
qed

theorem checkpoint_after_pages_witness:
  "\<exists>w' data'.
     run_pages (sample_env sample_service 3) () 3 sample_path [0, 1] empty_world (fresh_data 1)
       = (w', Inr data')
     \<and> files w' sample_path = Some (JsonDoc (PyDict data'))
     \<and> py_getitem_key (PyDict data') key_last_page = Inr (PyInt 2)
     \<and> py_getitem_key (PyDict data') key_questions = Inr (PyList [PyInt 1])"
proof -
  have range: "page_range (fresh_data 1) 3 = Inr [0, 1, 2]"
    by (simp add: page_range_def fresh_data_def upto_rec1)
  have ret: "returned_lists (sample_env sample_service 3) () (length (posted empty_world))
      (take 2 [0, 1, 2]) = Some [[PyInt 1], []]"
    by (simp add: empty_world_def sample_returned del: returned_lists.simps)
  have n: "(0::nat) < 2" and le: "(2::nat) \<le> length [0, 1, 2::int]"
    by simp_all
  have first: "take 2 [0, 1, 2::int] = [0, 1]"
    by simp
  from checkpoint_after_pages [OF range n le ret, of sample_path, unfolded first]
  obtain w' data'
    where "run_pages (sample_env sample_service 3) () 3 sample_path [0, 1] empty_world
        (fresh_data 1) = (w', Inr data')"
      and "files w' sample_path = Some (JsonDoc (PyDict data'))"
      and "py_getitem_key (PyDict data') key_last_page = Inr (PyInt (1 - 1 + int 2))"
      and "py_getitem_key (PyDict data') key_questions = Inr (PyList (concat [[PyInt 1], []]))"
    by blast
  then show ?thesis
    by (intro exI [of _ w'] exI [of _ data']) (simp del: run_pages.simps py_getitem_key.simps)
qed

text \<open>
  The claim as it is written, for every \<open>N\<close> from zero on, fails at zero: the checkpoint
  file is written at the end of a page and not before. A document of five pages read
  from \<^verbatim>\<open>start_page = 19\<close> gives the loop no page; the run ends well and no checkpoint file
  exists.
\<close>

theorem checkpoint_not_written_counterexample:
  "page_range (fresh_data 19) 5 = Inr []
   \<and> snd (process_pdf (sample_env sample_service 5) (str ''b.pdf'') (str ''q.json'') 19 empty_world)
       = Inr ()
   \<and> files (fst (process_pdf (sample_env sample_service 5) (str ''b.pdf'') (str ''q.json'') 19
        empty_world)) (checkpoint_path_of (str ''q.json'')) = None"
  using keys_distinct
  by (simp add: page_range_def fresh_data_def process_pdf_def load_checkpoint_def main_loop_def
      final_save_def sample_env_def empty_world_def print_def checkpoint_path_of_def str_def)

text \<open>
  C7. Let the loop run from \<^verbatim>\<open>last_page = lp\<close> over a document all of whose remaining
  pages are rendered and answered with lists, and let the request for the page of index
  \<open>i\<close> fail with an exception or return the empty list. The loop still ends without an
  exception: \<^verbatim>\<open>last_page\<close> reaches \<^verbatim>\<open>total_pages\<close> in the state and in the checkpoint file,
  the page contributes nothing, the questions held before and those of every other page
  are all there, and one request was sent per page.
\<close>

theorem failed_page_is_skipped:
  assumes "map_of data key_last_page = Some (PyInt lp)"
    and "map_of data key_questions = Some (PyList qs0)"
    and "returned_lists env doc (length (posted w)) [lp..int total_pages - 1] = Some qss"
    and "lp \<le> i" and "i < int total_pages"
    and "getitem_doc env doc i = Inr page" and "pdf_page_to_base64 env page = Inr img"
    and "(\<exists>e. vision_try_body env (length (posted w) + nat (i - lp)) img = Inl e \<and> is_Exception e)
         \<or> vision_try_body env (length (posted w) + nat (i - lp)) img = Inr (PyList [])"
  shows "\<exists>w' data'.
           main_loop env doc total_pages cp w data = (w', Inr data')
           \<and> py_getitem_key (PyDict data') key_last_page = Inr (PyInt (int total_pages))
           \<and> files w' cp = Some (JsonDoc (PyDict data'))
           \<and> qss ! nat (i - lp) = []
           \<and> py_getitem_key (PyDict data') key_questions
               = Inr (PyList (qs0 @ concat (take (nat (i - lp)) qss)
                                @ concat (drop (Suc (nat (i - lp))) qss)))
           \<and> length (posted w') = length (posted w) + nat (int total_pages - lp)"
proof -
  define pages where "pages = [lp..int total_pages - 1]"
  define j where "j = nat (i - lp)"
  from assms(4,5) have len: "length pages = nat (int total_pages - lp)" and j: "j < length pages"
    by (simp_all add: pages_def j_def)
  from assms(4,5) have nth: "pages ! j = i"
    unfolding pages_def j_def by (subst nth_upto) simp_all
  from run_pages_lists [OF assms(3) assms(2)] obtain w' data'
    where run: "run_pages env doc total_pages cp pages w data = (w', Inr data')"
      and qs: "map_of data' key_questions = Some (PyList (qs0 @ concat qss))"
      and posted: "length (posted w') = length (posted w) + length pages"
      and lenq: "length qss = length pages"
    unfolding pages_def by blast
  have "snd (vision_outcome env (length (posted w) + j) img) = Inr (PyList (qss ! j))"
    using assms(3,6,7) j nth unfolding pages_def [symmetric]
    by (intro returned_lists_nth [where pages = pages and page = page]) simp_all
  moreover have "snd (vision_outcome env (length (posted w) + j) img) = Inr (PyList [])"
    using assms(8) unfolding j_def by (rule vision_outcome_failed)
  ultimately have empty: "qss ! j = []"
    by simp
  from j lenq have "qss = take j qss @ qss ! j # drop (Suc j) qss"
    by (simp add: id_take_nth_drop)
  then have "concat qss = concat (take j qss) @ qss ! j @ concat (drop (Suc j) qss)"
    by (metis concat.simps(2) concat_append)
  with empty have split: "concat qss = concat (take j qss) @ concat (drop (Suc j) qss)"
    by simp
  from j have ne: "pages \<noteq> []"
    by auto
  from j last_take_upto [of "length pages" lp "int total_pages - 1"] len
  have "last pages + 1 = int total_pages"
    by (simp add: pages_def)
  with run_pages_completed [OF run ne]
  have ckpt: "files w' cp = Some (JsonDoc (PyDict data'))"
    and lp': "map_of data' key_last_page = Some (PyInt (int total_pages))"
    by simp_all
  have "main_loop env doc total_pages cp w data = (w', Inr data')"
    using assms(1) run by (simp add: main_loop_def page_range_def pages_def)
  with ckpt lp' qs split empty posted len show ?thesis
    by (simp add: j_def)
qed

theorem failed_page_is_skipped_witness:
  "\<exists>w' data'.
     main_loop (sample_env sample_service 3) () 3 sample_path empty_world (fresh_data 1)
       = (w', Inr data')
     \<and> py_getitem_key (PyDict data') key_last_page = Inr (PyInt 3)
     \<and> files w' sample_path = Some (JsonDoc (PyDict data'))
     \<and> py_getitem_key (PyDict data') key_questions = Inr (PyList [PyInt 1, PyInt 1])
     \<and> length (posted w') = 3"
proof -
  have lp: "map_of (fresh_data 1) key_last_page = Some (PyInt 0)"
    by (simp add: fresh_data_def)
  have qs: "map_of (fresh_data 1) key_questions = Some (PyList [])"
    using keys_distinct by (simp add: fresh_data_def)
  have ret: "returned_lists (sample_env sample_service 3) () (length (posted empty_world))
      [0..int 3 - 1] = Some [[PyInt 1], [], [PyInt 1]]"
    by (simp add: empty_world_def sample_returned upto_rec1 del: returned_lists.simps)
  have fails: "(\<exists>e. vision_try_body (sample_env sample_service 3)
        (length (posted empty_world) + nat (1 - 0)) [65 + nat 1] = Inl e \<and> is_Exception e)
      \<or> vision_try_body (sample_env sample_service 3)
        (length (posted empty_world) + nat (1 - 0)) [65 + nat 1] = Inr (PyList [])"
    by (simp add: empty_world_def sample_service_outcome)
  from sample_render [of 1 3 sample_service]
  have page: "getitem_doc (sample_env sample_service 3) () 1 = Inr 1"
    and img: "pdf_page_to_base64 (sample_env sample_service 3) 1 = Inr [65 + nat 1]"
    by simp_all
  from failed_page_is_skipped [OF lp qs ret _ _ page img fails, of sample_path]
  show ?thesis
    by (simp add: empty_world_def)
qed

text \<open>
  C8. When the page loop completes, the output file holds the value of the
  \<^verbatim>\<open>questions\<close> entry of the final state and nothing around it, whatever the file held
  before; a list of questions is written as a bare array. The checkpoint file is left
  as the loop wrote it, and if the loop had a page to process it holds that same state.
\<close>

theorem final_output_is_questions:
  assumes "fitz_open env pdf_path = Inr doc"
    and "load_checkpoint start_page (checkpoint_path_of output_path) w = (w1, Inr data)"
    and "main_loop env doc (len_doc env doc) (checkpoint_path_of output_path) w1 data
           = (w2, Inr data')"
    and "map_of data' key_questions = Some qs"
  shows "files (fst (process_pdf env pdf_path output_path start_page w)) output_path
           = Some (JsonDoc qs)
         \<and> files (fst (process_pdf env pdf_path output_path start_page w))
               (checkpoint_path_of output_path)
             = files w2 (checkpoint_path_of output_path)
         \<and> (\<forall>p ps. page_range data (len_doc env doc) = Inr (p # ps) \<longrightarrow>
               files w2 (checkpoint_path_of output_path) = Some (JsonDoc (PyDict data')))"
proof -
  have "process_pdf env pdf_path output_path start_page w = final_save output_path w2 data'"
    using assms(1-3) by (simp add: process_pdf_def)
  then have out: "files (fst (process_pdf env pdf_path output_path start_page w))
      = (files w2)(output_path \<mapsto> JsonDoc qs)"
    using assms(4) by (simp add: final_save_def print_def Let_def split: sum.splits)
  have "files w2 (checkpoint_path_of output_path) = Some (JsonDoc (PyDict data'))"
    if "page_range data (len_doc env doc) = Inr (p # ps)" for p ps
  proof -
    from that assms(3)
    have "run_pages env doc (len_doc env doc) (checkpoint_path_of output_path) (p # ps) w1 data
        = (w2, Inr data')"
      by (simp add: main_loop_def)
    from run_pages_completed [OF this] show ?thesis
      by simp
  qed
  with out checkpoint_path_differs [of output_path] show ?thesis
    by simp
qed

theorem final_output_is_questions_witness:
  "files (fst (process_pdf (sample_env sample_service 3) (str ''b.pdf'') (str ''q.json'') 1
      stale_world)) (str ''q.json'') = Some (JsonDoc (PyList [PyInt 1, PyInt 1]))"
proof -
  have opened: "fitz_open (sample_env sample_service 3) (str ''b.pdf'') = Inr ()"
    by (simp add: sample_env_def)
  have "files stale_world (checkpoint_path_of (str ''q.json'')) = None"
    by (simp add: stale_world_def empty_world_def checkpoint_path_of_def str_def)
  then have load: "load_checkpoint 1 (checkpoint_path_of (str ''q.json'')) stale_world
      = (stale_world, Inr (fresh_data 1))"
    by (simp add: load_checkpoint_def)
  have q0: "map_of (fresh_data 1) key_questions = Some (PyList [])"
    using keys_distinct by (simp add: fresh_data_def)
  have ret: "returned_lists (sample_env sample_service 3) () (length (posted stale_world))
      [0, 1, 2] = Some [[PyInt 1], [], [PyInt 1]]"
    by (simp add: stale_world_def empty_world_def sample_returned del: returned_lists.simps)
  from run_pages_lists [OF ret q0, of 3 "checkpoint_path_of (str ''q.json'')"] obtain w2 data'
    where run: "run_pages (sample_env sample_service 3) () 3 (checkpoint_path_of (str ''q.json''))
        [0, 1, 2] stale_world (fresh_data 1) = (w2, Inr data')"
      and qs: "map_of data' key_questions = Some (PyList ([] @ concat [[PyInt 1], [], [PyInt 1]]))"
    by blast
  have "page_range (fresh_data 1) 3 = Inr [0, 1, 2]"
    by (simp add: page_range_def fresh_data_def upto_rec1)
  with run have loop: "main_loop (sample_env sample_service 3) ()
      (len_doc (sample_env sample_service 3) ()) (checkpoint_path_of (str ''q.json''))
      stale_world (fresh_data 1) = (w2, Inr data')"
    by (simp add: main_loop_def sample_env_def del: run_pages.simps)
  from final_output_is_questions [OF opened load loop qs] show ?thesis
    by simp
qed

text \<open>
  C9. When rendering a page raises, in \<^verbatim>\<open>get_pixmap\<close> or in \<^verbatim>\<open>tobytes\<close>, the exception
  leaves \<^verbatim>\<open>pdf_page_to_base64\<close> and the whole run: after the pages before it, the run has
  printed the line that announces the page and done nothing else. The files and the
  requests sent are those of the earlier pages.
\<close>

theorem rasterization_error_ends_run:
  assumes "fitz_open env pdf_path = Inr doc"
    and "load_checkpoint start_page (checkpoint_path_of output_path) w = (w0, Inr data)"
    and "page_range data (len_doc env doc) = Inr (pre @ i # rest)"
    and "run_pages env doc (len_doc env doc) (checkpoint_path_of output_path) pre w0 data
           = (w1, Inr data1)"
    and "getitem_doc env doc i = Inr page"
    and "get_pixmap env page = Inl e
         \<or> (\<exists>pix. get_pixmap env page = Inr pix \<and> tobytes env pix = Inl e)"
  shows "pdf_page_to_base64 env page = Inl e
         \<and> process_pdf env pdf_path output_path start_page w
             = (print (ProcessingPage (i + 1) (len_doc env doc)) w1, Inl e)
         \<and> files (fst (process_pdf env pdf_path output_path start_page w)) = files w1
         \<and> posted (fst (process_pdf env pdf_path output_path start_page w)) = posted w1"
proof -
  from assms(6) have raster: "pdf_page_to_base64 env page = Inl e"
    by (auto simp: pdf_page_to_base64_def)
  with assms(5) have step: "page_step env doc (len_doc env doc) (checkpoint_path_of output_path) i w1 data1
      = (print (ProcessingPage (i + 1) (len_doc env doc)) w1, Inl e)"
    by (simp add: page_step_def Let_def)
  have "run_pages env doc (len_doc env doc) (checkpoint_path_of output_path) (pre @ i # rest) w0 data
      = (print (ProcessingPage (i + 1) (len_doc env doc)) w1, Inl e)"
    unfolding run_pages_append using assms(4) step by simp
  with assms(1-3) have "process_pdf env pdf_path output_path start_page w
      = (print (ProcessingPage (i + 1) (len_doc env doc)) w1, Inl e)"
    by (simp add: process_pdf_def main_loop_def)
  with raster show ?thesis
    by (simp add: print_def)
qed

theorem rasterization_error_ends_run_witness:
  "snd (process_pdf (sample_env sample_service 5) (str ''b.pdf'') (str ''q.json'') 3 empty_world)
     = Inl (LibraryError ''RuntimeError'')
   \<and> length (posted (fst (process_pdf (sample_env sample_service 5) (str ''b.pdf'')
        (str ''q.json'') 3 empty_world))) = 1
   \<and> files (fst (process_pdf (sample_env sample_service 5) (str ''b.pdf'') (str ''q.json'') 3
        empty_world)) (str ''q.json'') = None"
proof -
  have opened: "fitz_open (sample_env sample_service 5) (str ''b.pdf'') = Inr ()"
    by (simp add: sample_env_def)
  have load: "load_checkpoint 3 (checkpoint_path_of (str ''q.json'')) empty_world
      = (empty_world, Inr (fresh_data 3))"
    by (simp add: load_checkpoint_def empty_world_def)
  have range: "page_range (fresh_data 3) (len_doc (sample_env sample_service 5) ())
      = Inr ([2] @ 3 # [4])"
    by (simp add: page_range_def fresh_data_def sample_env_def upto_rec1)
  have q0: "map_of (fresh_data 3) key_questions = Some (PyList [])"
    using keys_distinct by (simp add: fresh_data_def)
  have ret: "returned_lists (sample_env sample_service 5) () (length (posted empty_world)) [2]
      = Some [[PyInt 1]]"
    by (simp add: empty_world_def sample_returned del: returned_lists.simps)
  from run_pages_lists [OF ret q0, of "len_doc (sample_env sample_service 5) ()"
      "checkpoint_path_of (str ''q.json'')"]
  obtain w1 data1
    where run: "run_pages (sample_env sample_service 5) () (len_doc (sample_env sample_service 5) ())
        (checkpoint_path_of (str ''q.json'')) [2] empty_world (fresh_data 3) = (w1, Inr data1)"
      and sent: "length (posted w1) = length (posted empty_world) + length [2::int]"
    by blast
  have untouched: "files w1 (str ''q.json'') = files empty_world (str ''q.json'')"
    using run checkpoint_path_differs [symmetric] by (rule run_pages_other_files)
  have page: "getitem_doc (sample_env sample_service 5) () 3 = Inr 3"
    by (simp add: sample_env_def)
  have fails: "get_pixmap (sample_env sample_service 5) 3 = Inl (LibraryError ''RuntimeError'')
      \<or> (\<exists>pix. get_pixmap (sample_env sample_service 5) 3 = Inr pix
            \<and> tobytes (sample_env sample_service 5) pix = Inl (LibraryError ''RuntimeError''))"
    by (simp add: sample_env_def)
  from sent untouched have "length (posted w1) = 1" and "files w1 (str ''q.json'') = None"
    by (simp_all add: empty_world_def)
  with rasterization_error_ends_run [OF opened load range run page fails]
  show ?thesis
    by (simp add: print_def)
qed

text \<open>
  C10. Whatever value the content parses to is what the Model Client returns, with no
  test of its shape. When that value is true, has a length and can be iterated, as a
  JSON object is, the loop extends the questions by whatever iterating it yields (the
  keys of the object).
\<close>

theorem parsed_value_is_not_validated:
  assumes "post env (length (posted w)) img = Inr r" "raise_for_status r = None"
    and "json r = Inr result"
    and "first_choice_content result = Inr content"
    and "clean_content content = Inr (PyStr cleaned)"
    and "json_loads env cleaned = Inr v"
  shows "snd (call_vision_model env img w) = Inr v
         \<and> (getitem_doc env doc i = Inr page \<and> pdf_page_to_base64 env page = Inr img
              \<and> truthy v \<and> py_len v = Inr k \<and> py_iter v = Inr xs
              \<and> map_of data key_questions = Some (PyList qs0) \<longrightarrow>
            snd (page_step env doc total_pages cp i w data)
              = Inr (dict_set key_last_page (PyInt (i + 1))
                       (dict_set key_questions (PyList (qs0 @ xs)) data)))"
proof -
  have "vision_try_body env (length (posted w)) img = Inr v"
    using assms by (simp add: vision_try_body_content parse_content_def)
  then have ret: "snd (vision_outcome env (length (posted w)) img) = Inr v"
    by (simp add: vision_outcome_def)
  then show ?thesis
    using page_step_extends [of env doc i page img w v k xs data qs0 total_pages cp]
    by (simp add: call_vision_model_returns)
qed

theorem parsed_value_is_not_validated_witness:
  "snd (call_vision_model (sample_env object_service 1) [65] empty_world)
     = Inr (PyDict [(str ''a'', PyInt 1)])
   \<and> snd (page_step (sample_env object_service 1) () 1 sample_path 0 empty_world (fresh_data 1))
     = Inr [(key_last_page, PyInt 1), (key_questions, PyList [PyStr (str ''a'')])]
   \<and> snd (call_vision_model (sample_env number_service 1) [65] empty_world) = Inr (PyInt 5)"
proof -
  have q0: "map_of (fresh_data 1) key_questions = Some (PyList [])"
    using keys_distinct by (simp add: fresh_data_def)
  have render: "getitem_doc (sample_env object_service 1) () 0 = Inr 0"
    "pdf_page_to_base64 (sample_env object_service 1) 0 = Inr [65]"
    using sample_render [of 0 1 object_service] by simp_all
  have object:
    "snd (call_vision_model (sample_env object_service 1) [65] empty_world)
       = Inr (PyDict [(str ''a'', PyInt 1)])
     \<and> (getitem_doc (sample_env object_service 1) () 0 = Inr 0
          \<and> pdf_page_to_base64 (sample_env object_service 1) 0 = Inr [65]
          \<and> truthy (PyDict [(str ''a'', PyInt 1)])
          \<and> py_len (PyDict [(str ''a'', PyInt 1)]) = Inr 1
          \<and> py_iter (PyDict [(str ''a'', PyInt 1)]) = Inr [PyStr (str ''a'')]
          \<and> map_of (fresh_data 1) key_questions = Some (PyList []) \<longrightarrow>
        snd (page_step (sample_env object_service 1) () 1 sample_path 0 empty_world (fresh_data 1))
          = Inr (dict_set key_last_page (PyInt (0 + 1))
                   (dict_set key_questions (PyList ([] @ [PyStr (str ''a'')])) (fresh_data 1))))"
  proof (rule parsed_value_is_not_validated)
    show "post (sample_env object_service 1) (length (posted empty_world)) [65]
        = Inr (answer (str ''{\"a\": 1}''))"
      by (simp add: sample_env_def object_service_def)
    show "raise_for_status (answer (str ''{\"a\": 1}'')) = None"
      by (simp add: answer_def)
    show "json (answer (str ''{\"a\": 1}'')) = Inr (envelope (str ''{\"a\": 1}''))"
      by (simp add: answer_def)
    show "first_choice_content (envelope (str ''{\"a\": 1}'')) = Inr (PyStr (str ''{\"a\": 1}''))"
      by (rule first_choice_envelope)
    show "clean_content (PyStr (str ''{\"a\": 1}'')) = Inr (PyStr (str ''{\"a\": 1}''))"
      by (simp add: clean_content_def fence_def fence_json_def str_def)
    show "json_loads (sample_env object_service 1) (str ''{\"a\": 1}'')
        = Inr (PyDict [(str ''a'', PyInt 1)])"
      by (simp add: sample_env_def sample_loads_def str_def)
  qed
  have number: "snd (call_vision_model (sample_env number_service 1) [65] empty_world)
      = Inr (PyInt 5)"
  proof (rule parsed_value_is_not_validated [THEN conjunct1])
    show "post (sample_env number_service 1) (length (posted empty_world)) [65]
        = Inr (answer (str ''5''))"
      by (simp add: sample_env_def number_service_def)
    show "raise_for_status (answer (str ''5'')) = None"
      by (simp add: answer_def)
    show "json (answer (str ''5'')) = Inr (envelope (str ''5''))"
      by (simp add: answer_def)
    show "first_choice_content (envelope (str ''5'')) = Inr (PyStr (str ''5''))"
      by (rule first_choice_envelope)
    show "clean_content (PyStr (str ''5'')) = Inr (PyStr (str ''5''))"
      by (simp add: clean_content_def fence_def fence_json_def str_def)
    show "json_loads (sample_env number_service 1) (str ''5'') = Inr (PyInt 5)"
      by (simp add: sample_env_def sample_loads_def str_def)
  qed
  from object render q0 number keys_distinct show ?thesis
    by (simp add: fresh_data_def)
qed

text \<open>
  A number that is not zero is returned unchanged as well, but never reaches
  \<^verbatim>\<open>extend\<close>: \<^verbatim>\<open>len\<close> of it raises first, and the run ends there.
\<close>

lemma number_reply_raises:
  "snd (page_step (sample_env number_service 1) () 1 sample_path 0 empty_world (fresh_data 1))
     = Inl TypeError"
proof -
  have no_fence: "find_sep fence (str ''5'') = None"
    by (simp add: fence_def str_def)
  have "vision_try_body (sample_env number_service 1) 0 [65]
      = parse_content (sample_env number_service 1) (PyStr (str ''5''))"
    unfolding number_service_def [abs_def] by (rule plain_service_outcome [OF no_fence])
  also have "\<dots> = Inr (PyInt 5)"
    by (simp add: parse_content_def sample_env_def sample_loads_def str_def)
  finally have "vision_outcome (sample_env number_service 1) 0 [65] = ([], Inr (PyInt 5))"
    by (simp add: vision_outcome_def)
  with sample_render [of 0 1 number_service] show ?thesis
    by (simp add: page_step_def call_vision_model_def extend_questions_def print_def
        empty_world_def)
qed

end
